theory Spec2Isabelle
  imports Main
begin

section \<open>The Philips Hue component: data model\<close>

text \<open>
  A shallow embedding of \<^verbatim>\<open>homeassistant/components/hue/__init__.py\<close>:
  \<^verbatim>\<open>async_setup\<close>, \<^verbatim>\<open>async_setup_entry\<close> and \<^verbatim>\<open>async_unload_entry\<close>.
  The coroutines run to completion one after the other, so every \<^verbatim>\<open>await\<close> is an
  ordinary call, and the mutable \<^verbatim>\<open>hass\<close> object and the config entry are passed in
  and returned.
\<close>

subsection \<open>Values, dictionaries, errors\<close>

text \<open>
  The values the dictionaries of a config entry hold: the host, a string, and the two
  flags, booleans. Python's \<^verbatim>\<open>!=\<close> between two such values is inequality of the
  constructor and its argument (a string is never equal to a boolean).
\<close>

datatype val = VBool bool | VStr string

type_synonym dict = "string \<rightharpoonup> val"

datatype error = KeyError

text \<open>
  \<^verbatim>\<open>CONF_HOST\<close> is \<^verbatim>\<open>homeassistant.const.CONF_HOST\<close>; line 73, 93 and 104 of the
  source write the same key as the literal \<^verbatim>\<open>"host"\<close>. \<^verbatim>\<open>SOURCE_IMPORT\<close> is the
  platform's name of the import flow.
\<close>

definition CONF_HOST :: string where
  "CONF_HOST = ''host''"

definition SOURCE_IMPORT :: string where
  "SOURCE_IMPORT = ''import''"

text \<open>
  Modelled from the spec: the keys \<^verbatim>\<open>CONF_ALLOW_UNREACHABLE\<close>, \<^verbatim>\<open>CONF_ALLOW_HUE_GROUPS\<close>
  and the name \<^verbatim>\<open>DOMAIN\<close> are imported from \<^verbatim>\<open>.const\<close>, which is not among the
  source files. The spec names the two flags \<^verbatim>\<open>allow_unreachable\<close> and
  \<^verbatim>\<open>allow_hue_groups\<close>; the domain is the component's directory name.
\<close>

definition CONF_ALLOW_UNREACHABLE :: string where
  "CONF_ALLOW_UNREACHABLE = ''allow_unreachable''"

definition CONF_ALLOW_HUE_GROUPS :: string where
  "CONF_ALLOW_HUE_GROUPS = ''allow_hue_groups''"

definition DOMAIN :: string where
  "DOMAIN = ''hue''"

text \<open>
  What the module takes from outside and the source files do not hold: the two
  documented defaults of \<^verbatim>\<open>.const\<close> and \<^verbatim>\<open>aiohue.util.normalize_bridge_id\<close>.
  They are parameters of the model.
\<close>

record ext =
  DEFAULT_ALLOW_UNREACHABLE :: bool
  DEFAULT_ALLOW_HUE_GROUPS :: bool
  normalize_bridge_id :: "string \<Rightarrow> string"

subsection \<open>Legacy configuration\<close>

text \<open>
  One record of the \<^verbatim>\<open>bridges\<close> list, as \<^verbatim>\<open>BRIDGE_CONFIG_SCHEMA\<close> (lines 30-38)
  lets it through: a required host, kept as a string, and three optional keys. An
  optional key that is absent is \<open>None\<close>.
\<close>

record bridge_conf =
  host :: string
  allow_unreachable :: "bool option"
  allow_hue_groups :: "bool option"
  filename :: "string option"

text \<open>
  The dictionary under \<^verbatim>\<open>DOMAIN\<close> in the configuration has at most the key
  \<^verbatim>\<open>bridges\<close> (\<^verbatim>\<open>CONFIG_SCHEMA\<close>, lines 40-54): it is the value of that key,
  if present.
\<close>

type_synonym domain_conf = "bridge_conf list option"

subsection \<open>Config entries and the bridge\<close>

record config_entry =
  entry_id :: string
  data :: dict
  options :: dict
  unique_id :: "string option"

text \<open>The descriptor \<^verbatim>\<open>bridge.api.config\<close>, read after a successful setup.\<close>

record bridge_config =
  bridgeid :: string
  mac :: string
  name :: string
  modelid :: string
  swversion :: string
  swupdate2_bridge_state :: string

text \<open>
  A \<^verbatim>\<open>HueBridge\<close> is defined in \<^verbatim>\<open>.bridge\<close>; this module only awaits its
  \<^verbatim>\<open>async_setup()\<close> and \<^verbatim>\<open>async_reset()\<close> and reads \<^verbatim>\<open>api.config\<close>. The
  model holds what these three give.
\<close>

record hue_bridge =
  setup_result :: bool
  api_config :: bridge_config
  reset_result :: bool

subsection \<open>The state of the platform\<close>

text \<open>A request \<^verbatim>\<open>hass.config_entries.flow.async_init(domain, context, data)\<close>.\<close>

record flow_init =
  flow_domain :: string
  flow_source :: string
  flow_data :: dict

text \<open>
  A call \<^verbatim>\<open>async_update_entry(entry, data=.., options=.., unique_id=..)\<close>: one
  persistence write. A keyword that is not passed is \<open>None\<close>.
\<close>

record update_call =
  upd_entry_id :: string
  upd_data :: "dict option"
  upd_options :: "dict option"
  upd_unique_id :: "string option"

text \<open>A call \<^verbatim>\<open>device_registry.async_get_or_create(...)\<close>.\<close>

record device =
  config_entry_id :: string
  connections :: "(string \<times> string) set"
  identifiers :: "(string \<times> string) set"
  manufacturer :: string
  device_name :: string
  model :: string
  sw_version :: string

text \<open>
  \<open>hue_data\<close> is \<^verbatim>\<open>hass.data[DOMAIN]\<close>, \<open>hue_configs\<close> is
  \<^verbatim>\<open>hass.data[DATA_CONFIGS]\<close>, \<open>entries\<close> is what
  \<^verbatim>\<open>hass.config_entries.async_entries(DOMAIN)\<close> lists. The other fields log, in
  order, the calls made to the platform: tasks created, entry updates, device
  registrations, persistent notifications and logged warnings.
\<close>

record hass =
  hue_data :: "string \<rightharpoonup> hue_bridge"
  hue_configs :: "val \<rightharpoonup> bridge_conf"
  entries :: "config_entry list"
  tasks :: "flow_init list"
  updates :: "update_call list"
  devices :: "device list"
  notifications :: "(string \<times> string \<times> string) list"
  warnings :: "(string \<times> string \<times> string) list"

section \<open>async\_setup: the legacy configuration importer\<close>

text \<open>
  The loop of lines 76-95. \<open>configured_hosts\<close> holds \<^verbatim>\<open>entry.data.get("host")\<close> of
  every entry: \<open>None\<close> is Python's \<^verbatim>\<open>None\<close>, what \<^verbatim>\<open>get\<close> gives for an entry with
  no host.
\<close>

fun import_bridges :: "val option set \<Rightarrow> bridge_conf list \<Rightarrow> hass \<Rightarrow> hass" where
  "import_bridges configured_hosts [] hass = hass"
| "import_bridges configured_hosts (bridge_conf # bridges) hass =
     (let hass = hass\<lparr>hue_configs := (hue_configs hass)(VStr (host bridge_conf) \<mapsto> bridge_conf)\<rparr>
      in if Some (VStr (host bridge_conf)) \<in> configured_hosts
         then import_bridges configured_hosts bridges hass
         else import_bridges configured_hosts bridges
                (hass\<lparr>tasks := tasks hass @
                   [\<lparr>flow_domain = DOMAIN, flow_source = SOURCE_IMPORT,
                     flow_data = [CONF_HOST \<mapsto> VStr (host bridge_conf)]\<rparr>]\<rparr>))"

definition async_setup :: "hass \<Rightarrow> domain_conf option \<Rightarrow> bool \<times> hass" where
  "async_setup hass config =
     (let conf = (case config of None \<Rightarrow> None | Some conf \<Rightarrow> conf);
          hass = hass\<lparr>hue_data := Map.empty, hue_configs := Map.empty\<rparr>
      in case conf of
           None \<Rightarrow> (True, hass)
         | Some bridges \<Rightarrow>
             (let configured_hosts = set (map (\<lambda>entry. data entry CONF_HOST) (entries hass))
              in (True, import_bridges configured_hosts bridges hass)))"

section \<open>async\_setup\_entry: the entry reconciler\<close>

text \<open>
  Modelled from the spec: \<^verbatim>\<open>hass.config_entries.async_update_entry\<close> is the platform's
  entry store, not among the source files. By the spec it replaces the parts of the
  entry that are passed and persists the change; every call is one persistence write.
\<close>

definition async_update_entry ::
  "hass \<Rightarrow> config_entry \<Rightarrow> dict option \<Rightarrow> dict option \<Rightarrow> string option
     \<Rightarrow> hass \<times> config_entry" where
  "async_update_entry hass entry new_data new_options new_unique_id =
     (hass\<lparr>updates := updates hass @
        [\<lparr>upd_entry_id = entry_id entry, upd_data = new_data,
          upd_options = new_options, upd_unique_id = new_unique_id\<rparr>]\<rparr>,
      entry\<lparr>data := (case new_data of None \<Rightarrow> data entry | Some d \<Rightarrow> d),
            options := (case new_options of None \<Rightarrow> options entry | Some opts \<Rightarrow> opts),
            unique_id := (case new_unique_id of None \<Rightarrow> unique_id entry | Some u \<Rightarrow> Some u)\<rparr>)"

text \<open>
  Lines 108-119 and 122-133 are the same block, once for \<^verbatim>\<open>CONF_ALLOW_UNREACHABLE\<close>
  with \<^verbatim>\<open>DEFAULT_ALLOW_UNREACHABLE\<close> and once for \<^verbatim>\<open>CONF_ALLOW_HUE_GROUPS\<close> with
  \<^verbatim>\<open>DEFAULT_ALLOW_HUE_GROUPS\<close>: \<open>migrate_flag\<close> is that block at a key and its
  default.
\<close>

definition migrate_flag :: "string \<Rightarrow> bool \<Rightarrow> hass \<times> config_entry \<Rightarrow> hass \<times> config_entry" where
  "migrate_flag conf dflt = (\<lambda>(hass, entry).
     if options entry conf = None
        \<and> data entry conf \<noteq> None
        \<and> the (data entry conf) \<noteq> VBool dflt
     then (let new_options = (options entry)(conf \<mapsto> the (data entry conf));
               new_data = (data entry)(conf := None)
           in async_update_entry hass entry (Some new_data) (Some new_options) None)
     else (hass, entry))"

text \<open>
  Lines 137-148: the local dictionary \<^verbatim>\<open>options\<close> that the override builds, first
  from \<^verbatim>\<open>allow_hue_groups\<close>, then from \<^verbatim>\<open>allow_unreachable\<close>. The right operand of
  each \<^verbatim>\<open>or\<close> is read only when the key is in \<^verbatim>\<open>entry.options\<close>.
\<close>

definition yaml_options :: "bridge_conf \<Rightarrow> config_entry \<Rightarrow> dict" where
  "yaml_options config entry =
     (let new_options = Map.empty;
          new_options =
            (if allow_hue_groups config \<noteq> None
                \<and> (options entry CONF_ALLOW_HUE_GROUPS = None
                   \<or> VBool (the (allow_hue_groups config)) \<noteq> the (options entry CONF_ALLOW_HUE_GROUPS))
             then new_options(CONF_ALLOW_HUE_GROUPS \<mapsto> VBool (the (allow_hue_groups config)))
             else new_options);
          new_options =
            (if allow_unreachable config \<noteq> None
                \<and> (options entry CONF_ALLOW_UNREACHABLE = None
                   \<or> VBool (the (allow_unreachable config)) \<noteq> the (options entry CONF_ALLOW_UNREACHABLE))
             then new_options(CONF_ALLOW_UNREACHABLE \<mapsto> VBool (the (allow_unreachable config)))
             else new_options)
      in new_options)"

text \<open>
  Lines 137-153, the body of \<^verbatim>\<open>if config is not None\<close>. \<^verbatim>\<open>if options:\<close> tests
  that the local dictionary is not empty; \<^verbatim>\<open>{**entry.options, **options}\<close> is the
  entry's options with the local dictionary laid over them.
\<close>

definition overwrite_from_yaml :: "bridge_conf \<Rightarrow> hass \<times> config_entry \<Rightarrow> hass \<times> config_entry" where
  "overwrite_from_yaml config = (\<lambda>(hass, entry).
     let new_options = yaml_options config entry
     in if dom new_options \<noteq> {}
        then async_update_entry hass entry None (Some (options entry ++ new_options)) None
        else (hass, entry))"

text \<open>Lines 107-153: the two migrations, then the override from the legacy record.\<close>

definition merge_entry ::
  "ext \<Rightarrow> bridge_conf option \<Rightarrow> hass \<times> config_entry \<Rightarrow> hass \<times> config_entry" where
  "merge_entry x config s =
     (let s = migrate_flag CONF_ALLOW_UNREACHABLE (DEFAULT_ALLOW_UNREACHABLE x) s;
          s = migrate_flag CONF_ALLOW_HUE_GROUPS (DEFAULT_ALLOW_HUE_GROUPS x) s
      in case config of None \<Rightarrow> s | Some config \<Rightarrow> overwrite_from_yaml config s)"

text \<open>
  Python compares strings by code point, position by position; a proper prefix is
  smaller.
\<close>

fun str_less :: "string \<Rightarrow> string \<Rightarrow> bool" where
  "str_less [] [] = False"
| "str_less [] (y # ys) = True"
| "str_less (x # xs) [] = False"
| "str_less (x # xs) (y # ys) =
     ((of_char x :: nat) < of_char y \<or> (x = y \<and> str_less xs ys))"

text \<open>
  Lines 180-194: the firmware advisory. The arguments of
  \<^verbatim>\<open>persistent_notification.async_create\<close> (message, title, notification id) and the
  tuple \<^verbatim>\<open>err\<close> that is logged as a warning.
\<close>

definition security_notification :: "string \<times> string \<times> string" where
  "security_notification =
     (''Your Hue hub has a known security vulnerability ([CVE-2020-6007](https://cve.circl.lu/cve/CVE-2020-6007)). Go to the Hue app and check for software updates.'',
      ''Signify Hue'', ''hue_hub_firmware'')"

definition update_warning :: "string \<times> string \<times> string" where
  "update_warning =
     (''Please check for software updates of the bridge in the Philips Hue App.'',
      ''Signify Hue'', ''hue_hub_firmware'')"

definition firmware_advisory :: "bridge_config \<Rightarrow> hass \<Rightarrow> hass" where
  "firmware_advisory config hass =
     (if modelid config = ''BSB002'' \<and> str_less (swversion config) ''1935144040''
      then hass\<lparr>notifications := notifications hass @ [security_notification]\<rparr>
      else if swupdate2_bridge_state config = ''readytoinstall''
      then hass\<lparr>warnings := warnings hass @ [update_warning]\<rparr>
      else hass)"

text \<open>
  Lines 160-196, after \<^verbatim>\<open>bridge.async_setup()\<close> has returned true.
  \<^verbatim>\<open>dr.CONNECTION_NETWORK_MAC\<close> is the string \<^verbatim>\<open>"mac"\<close>.
\<close>

definition finish_setup :: "ext \<Rightarrow> hass \<Rightarrow> config_entry \<Rightarrow> hue_bridge \<Rightarrow> hass \<times> config_entry" where
  "finish_setup x hass entry bridge =
     (let hass = hass\<lparr>hue_data := (hue_data hass)(entry_id entry \<mapsto> bridge)\<rparr>;
          config = api_config bridge;
          (hass, entry) =
            (if unique_id entry = None
             then async_update_entry hass entry None None
                    (Some (normalize_bridge_id x (bridgeid config)))
             else (hass, entry));
          hass = hass\<lparr>devices := devices hass @
            [\<lparr>config_entry_id = entry_id entry,
              connections = {(''mac'', mac config)},
              identifiers = {(DOMAIN, bridgeid config)},
              manufacturer = ''Signify'',
              device_name = name config,
              model = modelid config,
              sw_version = swversion config\<rparr>]\<rparr>
      in (firmware_advisory config hass, entry))"

text \<open>
  The whole of \<^verbatim>\<open>async_setup_entry\<close>. \<^verbatim>\<open>entry.data["host"]\<close> raises \<^verbatim>\<open>KeyError\<close>
  when the entry has no host, before anything is changed. \<open>bridge\<close> is the object
  that \<^verbatim>\<open>HueBridge(hass, entry)\<close> constructs at line 155.
\<close>

definition async_setup_entry ::
  "ext \<Rightarrow> hass \<Rightarrow> config_entry \<Rightarrow> hue_bridge \<Rightarrow> (error + bool) \<times> hass \<times> config_entry" where
  "async_setup_entry x hass entry bridge =
     (case data entry CONF_HOST of
        None \<Rightarrow> (Inl KeyError, hass, entry)
      | Some entry_host \<Rightarrow>
          (let config = hue_configs hass entry_host;
               (hass, entry) = merge_entry x config (hass, entry)
           in if \<not> setup_result bridge
              then (Inr False, hass, entry)
              else (let (hass, entry) = finish_setup x hass entry bridge
                    in (Inr True, hass, entry))))"

section \<open>async\_unload\_entry\<close>

text \<open>
  \<^verbatim>\<open>hass.data[DOMAIN].pop(entry.entry_id)\<close> raises \<^verbatim>\<open>KeyError\<close> when the key is
  absent; otherwise it removes the bridge, whose \<^verbatim>\<open>async_reset()\<close> gives the
  result.
\<close>

definition async_unload_entry :: "hass \<Rightarrow> config_entry \<Rightarrow> (error + bool) \<times> hass" where
  "async_unload_entry hass entry =
     (case hue_data hass (entry_id entry) of
        None \<Rightarrow> (Inl KeyError, hass)
      | Some bridge \<Rightarrow>
          (Inr (reset_result bridge),
           hass\<lparr>hue_data := (hue_data hass)(entry_id entry := None)\<rparr>))"


section \<open>The words of the specification\<close>

text \<open>
  The specification's condition for a flag migration: the flag is present in
  \<open>data\<close>, absent from \<open>options\<close>, and its value differs from the documented
  default.
\<close>

definition migration_fires :: "string \<Rightarrow> bool \<Rightarrow> config_entry \<Rightarrow> bool" where
  "migration_fires conf dflt entry =
     (data entry conf \<noteq> None \<and> options entry conf = None \<and> data entry conf \<noteq> Some (VBool dflt))"

text \<open>
  The specification's condition for the legacy override of one flag: the flag is
  present in the legacy record, and it is absent from \<open>options\<close> or differs there
  from the legacy value. \<open>overridden\<close> is the value of the flag after the override.
\<close>

definition override_fires :: "bool option \<Rightarrow> val option \<Rightarrow> bool" where
  "override_fires legacy opt =
     (legacy \<noteq> None \<and> (opt = None \<or> opt \<noteq> map_option VBool legacy))"

definition overridden :: "bool option \<Rightarrow> val option \<Rightarrow> val option" where
  "overridden legacy opt = (if override_fires legacy opt then map_option VBool legacy else opt)"

text \<open>
  The value of a key of \<open>options\<close> after the two migrations: the value \<open>data\<close>
  had for a flag whose migration fires, the value \<open>options\<close> had otherwise.
\<close>

definition migrated_option :: "ext \<Rightarrow> config_entry \<Rightarrow> string \<Rightarrow> val option" where
  "migrated_option x entry k =
     (if (k = CONF_ALLOW_UNREACHABLE
            \<and> migration_fires CONF_ALLOW_UNREACHABLE (DEFAULT_ALLOW_UNREACHABLE x) entry)
         \<or> (k = CONF_ALLOW_HUE_GROUPS
            \<and> migration_fires CONF_ALLOW_HUE_GROUPS (DEFAULT_ALLOW_HUE_GROUPS x) entry)
      then data entry k else options entry k)"

subsection \<open>The scenarios of the specification\<close>

text \<open>
  A platform with nothing stored; the entry with \<^verbatim>\<open>data={host:"10.0.0.5",
  allow_unreachable:true}\<close> and empty options; a legacy record for the same host with
  \<^verbatim>\<open>allow_unreachable=false\<close>.
\<close>

definition empty_hass :: hass where
  "empty_hass =
     \<lparr>hue_data = Map.empty, hue_configs = Map.empty, entries = [], tasks = [],
      updates = [], devices = [], notifications = [], warnings = []\<rparr>"

definition scenario_entry :: config_entry where
  "scenario_entry =
     \<lparr>entry_id = ''entry1'',
      data = [CONF_HOST \<mapsto> VStr ''10.0.0.5'', CONF_ALLOW_UNREACHABLE \<mapsto> VBool True],
      options = Map.empty,
      unique_id = None\<rparr>"

text \<open>The same entry with \<^verbatim>\<open>allow_unreachable\<close> at its documented default, false.\<close>

definition default_flag_entry :: config_entry where
  "default_flag_entry =
     \<lparr>entry_id = ''entry1'',
      data = [CONF_HOST \<mapsto> VStr ''10.0.0.5'', CONF_ALLOW_UNREACHABLE \<mapsto> VBool False],
      options = Map.empty,
      unique_id = None\<rparr>"

definition legacy_record :: bridge_conf where
  "legacy_record =
     \<lparr>host = ''10.0.0.5'', allow_unreachable = Some False, allow_hue_groups = None,
      filename = None\<rparr>"

text \<open>
  A choice of what comes from outside: the documented default false of
  \<^verbatim>\<open>allow_unreachable\<close>, the default true for \<^verbatim>\<open>allow_hue_groups\<close> (the
  specification gives none), and bridge identifiers that are normal already.
\<close>

definition plain_ext :: ext where
  "plain_ext =
     \<lparr>DEFAULT_ALLOW_UNREACHABLE = False, DEFAULT_ALLOW_HUE_GROUPS = True,
      normalize_bridge_id = (\<lambda>bridge_id. bridge_id)\<rparr>"

text \<open>
  A bridge whose setup succeeds, of the model \<^verbatim>\<open>BSB002\<close> with the firmware
  \<^verbatim>\<open>1935144030\<close> of the specification's scenario, that also reports an update ready
  to install.
\<close>

definition vulnerable_bridge :: hue_bridge where
  "vulnerable_bridge =
     \<lparr>setup_result = True,
      api_config =
        \<lparr>bridgeid = ''001788fffe23bfc2'', mac = ''00:17:88:23:bf:c2'', name = ''Philips hue'',
         modelid = ''BSB002'', swversion = ''1935144030'',
         swupdate2_bridge_state = ''readytoinstall''\<rparr>,
      reset_result = True\<rparr>"

text \<open>
  The specification's fully migrated entry: the flags are only in \<open>options\<close>, the
  values of the legacy record, if there is one, match those of \<open>options\<close>, and the
  unique identifier is assigned.
\<close>

definition legacy_matches :: "bool option \<Rightarrow> val option \<Rightarrow> bool" where
  "legacy_matches legacy opt = (case legacy of None \<Rightarrow> True | Some b \<Rightarrow> opt = Some (VBool b))"

definition fully_migrated :: "bridge_conf option \<Rightarrow> config_entry \<Rightarrow> bool" where
  "fully_migrated config entry =
     (data entry CONF_ALLOW_UNREACHABLE = None
      \<and> data entry CONF_ALLOW_HUE_GROUPS = None
      \<and> (case config of
            None \<Rightarrow> True
          | Some c \<Rightarrow>
              legacy_matches (allow_unreachable c) (options entry CONF_ALLOW_UNREACHABLE)
              \<and> legacy_matches (allow_hue_groups c) (options entry CONF_ALLOW_HUE_GROUPS))
      \<and> unique_id entry \<noteq> None)"

text \<open>
  An entry of the host \<^verbatim>\<open>10.0.0.5\<close> that is fully migrated with respect to the
  legacy record above.
\<close>

definition migrated_entry :: config_entry where
  "migrated_entry =
     \<lparr>entry_id = ''entry1'',
      data = [CONF_HOST \<mapsto> VStr ''10.0.0.5''],
      options = [CONF_ALLOW_UNREACHABLE \<mapsto> VBool False],
      unique_id = Some ''001788fffe23bfc2''\<rparr>"

text \<open>
  The specification's create-entry request for a host: a request of the import flow
  of this domain that carries exactly \<^verbatim>\<open>{host: <value>}\<close>. \<open>legacy_bridges\<close> are the
  bridge records of a legacy configuration, none when the domain or its \<^verbatim>\<open>bridges\<close>
  key is absent.
\<close>

definition create_entry_request :: "string \<Rightarrow> flow_init" where
  "create_entry_request h =
     \<lparr>flow_domain = DOMAIN, flow_source = SOURCE_IMPORT, flow_data = [CONF_HOST \<mapsto> VStr h]\<rparr>"

definition legacy_bridges :: "domain_conf option \<Rightarrow> bridge_conf list" where
  "legacy_bridges config = (case config of Some (Some bridges) \<Rightarrow> bridges | _ \<Rightarrow> [])"

text \<open>A legacy record for a second host.\<close>

definition second_record :: bridge_conf where
  "second_record =
     \<lparr>host = ''10.0.0.6'', allow_unreachable = None, allow_hue_groups = Some True,
      filename = None\<rparr>"

section \<open>The stages of the merge\<close>

lemma keys_distinct:
  "CONF_ALLOW_UNREACHABLE \<noteq> CONF_ALLOW_HUE_GROUPS"
  "CONF_ALLOW_HUE_GROUPS \<noteq> CONF_ALLOW_UNREACHABLE"
  "CONF_ALLOW_UNREACHABLE \<noteq> CONF_HOST"
  "CONF_ALLOW_HUE_GROUPS \<noteq> CONF_HOST"
  "CONF_HOST \<noteq> CONF_ALLOW_UNREACHABLE"
  "CONF_HOST \<noteq> CONF_ALLOW_HUE_GROUPS"
  by (simp_all add: CONF_ALLOW_UNREACHABLE_def CONF_ALLOW_HUE_GROUPS_def CONF_HOST_def)

lemma source_guard:
  "(legacy \<noteq> None \<and> (opt = None \<or> VBool (the legacy) \<noteq> the opt)) = override_fires legacy opt"
  by (cases legacy; cases opt) (auto simp: override_fires_def)

lemma yaml_options_eq:
  "yaml_options config entry =
     (\<lambda>k. if k = CONF_ALLOW_UNREACHABLE
              \<and> override_fires (allow_unreachable config) (options entry CONF_ALLOW_UNREACHABLE)
           then map_option VBool (allow_unreachable config)
           else if k = CONF_ALLOW_HUE_GROUPS
              \<and> override_fires (allow_hue_groups config) (options entry CONF_ALLOW_HUE_GROUPS)
           then map_option VBool (allow_hue_groups config)
           else None)"
  unfolding yaml_options_def Let_def source_guard
  by (rule ext) (auto simp: override_fires_def keys_distinct)

lemma yaml_options_dom:
  "(dom (yaml_options config entry) \<noteq> {}) =
     (override_fires (allow_hue_groups config) (options entry CONF_ALLOW_HUE_GROUPS)
      \<or> override_fires (allow_unreachable config) (options entry CONF_ALLOW_UNREACHABLE))"
  unfolding yaml_options_eq
  by (auto simp: dom_def override_fires_def split: if_splits)

lemma migrate_flag_fires:
  "migration_fires conf dflt entry \<Longrightarrow>
   migrate_flag conf dflt (hass, entry) =
     (hass\<lparr>updates := updates hass @
        [\<lparr>upd_entry_id = entry_id entry, upd_data = Some ((data entry)(conf := None)),
          upd_options = Some ((options entry)(conf := data entry conf)), upd_unique_id = None\<rparr>]\<rparr>,
      entry\<lparr>data := (data entry)(conf := None), options := (options entry)(conf := data entry conf)\<rparr>)"
  by (auto simp: migration_fires_def migrate_flag_def async_update_entry_def Let_def)

lemma migrate_flag_idle:
  "\<not> migration_fires conf dflt entry \<Longrightarrow> migrate_flag conf dflt (hass, entry) = (hass, entry)"
  by (auto simp: migration_fires_def migrate_flag_def)

lemma migration_fires_other:
  "conf \<noteq> conf' \<Longrightarrow>
   migration_fires conf' d' (snd (migrate_flag conf d (hass, entry))) = migration_fires conf' d' entry"
  by (cases "migration_fires conf d entry")
     (simp_all add: migrate_flag_fires migrate_flag_idle, simp add: migration_fires_def)

lemma overlay_eq:
  "options entry ++ yaml_options config entry =
     (options entry)
       (CONF_ALLOW_HUE_GROUPS :=
          overridden (allow_hue_groups config) (options entry CONF_ALLOW_HUE_GROUPS),
        CONF_ALLOW_UNREACHABLE :=
          overridden (allow_unreachable config) (options entry CONF_ALLOW_UNREACHABLE))"
  unfolding yaml_options_eq
  by (rule ext) (auto simp: map_add_def overridden_def override_fires_def keys_distinct)

lemma overwrite_from_yaml_fires:
  "override_fires (allow_hue_groups config) (options entry CONF_ALLOW_HUE_GROUPS)
     \<or> override_fires (allow_unreachable config) (options entry CONF_ALLOW_UNREACHABLE) \<Longrightarrow>
   overwrite_from_yaml config (hass, entry) =
     (hass\<lparr>updates := updates hass @
        [\<lparr>upd_entry_id = entry_id entry, upd_data = None,
          upd_options = Some (options entry ++ yaml_options config entry),
          upd_unique_id = None\<rparr>]\<rparr>,
      entry\<lparr>options := options entry ++ yaml_options config entry\<rparr>)"
  unfolding overwrite_from_yaml_def Let_def prod.case yaml_options_dom
  by (simp add: async_update_entry_def)

lemma overwrite_from_yaml_idle:
  "\<not> (override_fires (allow_hue_groups config) (options entry CONF_ALLOW_HUE_GROUPS)
     \<or> override_fires (allow_unreachable config) (options entry CONF_ALLOW_UNREACHABLE)) \<Longrightarrow>
   overwrite_from_yaml config (hass, entry) = (hass, entry)"
  unfolding overwrite_from_yaml_def Let_def prod.case yaml_options_dom
  by simp

text \<open>
  C2. Each flag migration fires if and only if the flag is present in \<open>data\<close>,
  absent from \<open>options\<close> and different from the default. When it fires, the value
  is copied into \<open>options\<close>, the key is removed from \<open>data\<close> and exactly one
  write is made; otherwise nothing changes. The two migrations are independent: the
  writes of both together are one for each flag whose condition holds of the entry as
  it was.
\<close>

theorem flag_migration:
  "(let (hass', entry') = migrate_flag conf dflt (hass, entry)
    in if migration_fires conf dflt entry
       then options entry' conf = data entry conf \<and> data entry' conf = None
            \<and> (\<exists>w. updates hass' = updates hass @ [w])
       else hass' = hass \<and> entry' = entry)
   \<and> length (updates (fst (migrate_flag CONF_ALLOW_HUE_GROUPS d2
              (migrate_flag CONF_ALLOW_UNREACHABLE d1 (hass, entry)))))
     = length (updates hass)
       + (if migration_fires CONF_ALLOW_UNREACHABLE d1 entry then 1 else 0)
       + (if migration_fires CONF_ALLOW_HUE_GROUPS d2 entry then 1 else 0)"
proof (intro conjI)
  show "let (hass', entry') = migrate_flag conf dflt (hass, entry)
    in if migration_fires conf dflt entry
       then options entry' conf = data entry conf \<and> data entry' conf = None
            \<and> (\<exists>w. updates hass' = updates hass @ [w])
       else hass' = hass \<and> entry' = entry"
    by (cases "migration_fires conf dflt entry")
       (simp_all add: migrate_flag_fires migrate_flag_idle)
next
  obtain h1 e1 where s1: "migrate_flag CONF_ALLOW_UNREACHABLE d1 (hass, entry) = (h1, e1)"
    by (cases "migrate_flag CONF_ALLOW_UNREACHABLE d1 (hass, entry)")
  have len1: "length (updates h1) = length (updates hass)
      + (if migration_fires CONF_ALLOW_UNREACHABLE d1 entry then 1 else 0)"
    using s1 by (cases "migration_fires CONF_ALLOW_UNREACHABLE d1 entry")
      (auto simp: migrate_flag_fires migrate_flag_idle)
  have f2: "migration_fires CONF_ALLOW_HUE_GROUPS d2 e1 = migration_fires CONF_ALLOW_HUE_GROUPS d2 entry"
    using migration_fires_other [OF keys_distinct(1), of d2 d1 hass entry] s1 by simp
  have len2: "length (updates (fst (migrate_flag CONF_ALLOW_HUE_GROUPS d2 (h1, e1))))
      = length (updates h1) + (if migration_fires CONF_ALLOW_HUE_GROUPS d2 e1 then 1 else 0)"
    by (cases "migration_fires CONF_ALLOW_HUE_GROUPS d2 e1")
      (simp_all add: migrate_flag_fires migrate_flag_idle)
  show "length (updates (fst (migrate_flag CONF_ALLOW_HUE_GROUPS d2
              (migrate_flag CONF_ALLOW_UNREACHABLE d1 (hass, entry)))))
     = length (updates hass)
       + (if migration_fires CONF_ALLOW_UNREACHABLE d1 entry then 1 else 0)
       + (if migration_fires CONF_ALLOW_HUE_GROUPS d2 entry then 1 else 0)"
    using len1 len2 f2 s1 by simp
qed

lemma scenario_fires:
  "migration_fires CONF_ALLOW_UNREACHABLE False scenario_entry"
  "\<not> migration_fires CONF_ALLOW_HUE_GROUPS d scenario_entry"
  by (simp_all add: migration_fires_def scenario_entry_def keys_distinct)

theorem flag_migration_witness:
  "options (snd (migrate_flag CONF_ALLOW_UNREACHABLE False (empty_hass, scenario_entry)))
     CONF_ALLOW_UNREACHABLE = Some (VBool True)
   \<and> data (snd (migrate_flag CONF_ALLOW_UNREACHABLE False (empty_hass, scenario_entry)))
     CONF_ALLOW_UNREACHABLE = None
   \<and> length (updates (fst (migrate_flag CONF_ALLOW_HUE_GROUPS False
        (migrate_flag CONF_ALLOW_UNREACHABLE False (empty_hass, scenario_entry))))) = 1"
proof -
  have d: "data scenario_entry CONF_ALLOW_UNREACHABLE = Some (VBool True)"
    by (simp add: scenario_entry_def)
  have u: "updates empty_hass = []"
    by (simp add: empty_hass_def)
  show ?thesis
    using flag_migration [of CONF_ALLOW_UNREACHABLE False empty_hass scenario_entry False False]
    by (simp add: scenario_fires d u case_prod_beta)
qed

text \<open>
  C3. The override stage sets each of the two flags in \<open>options\<close> to the legacy
  value exactly when the legacy record has the flag and \<open>options\<close> lacks it or
  differs; it makes one combined write if a flag changed and none otherwise.
\<close>

theorem legacy_override:
  "(let (hass', entry') = overwrite_from_yaml config (hass, entry);
        g = override_fires (allow_hue_groups config) (options entry CONF_ALLOW_HUE_GROUPS);
        u = override_fires (allow_unreachable config) (options entry CONF_ALLOW_UNREACHABLE)
    in options entry' CONF_ALLOW_HUE_GROUPS =
         (if g then map_option VBool (allow_hue_groups config)
          else options entry CONF_ALLOW_HUE_GROUPS)
     \<and> options entry' CONF_ALLOW_UNREACHABLE =
         (if u then map_option VBool (allow_unreachable config)
          else options entry CONF_ALLOW_UNREACHABLE)
     \<and> updates hass' = updates hass @
         (if g \<or> u
          then [\<lparr>upd_entry_id = entry_id entry, upd_data = None,
                 upd_options = Some (options entry'), upd_unique_id = None\<rparr>]
          else []))"
proof (cases "override_fires (allow_hue_groups config) (options entry CONF_ALLOW_HUE_GROUPS)
     \<or> override_fires (allow_unreachable config) (options entry CONF_ALLOW_UNREACHABLE)")
  case True
  show ?thesis
    unfolding overwrite_from_yaml_fires [OF True] overlay_eq Let_def prod.case
    using True by (simp add: overridden_def keys_distinct)
next
  case False
  show ?thesis
    unfolding overwrite_from_yaml_idle [OF False] Let_def prod.case
    using False by simp
qed

theorem legacy_override_witness:
  "options (snd (overwrite_from_yaml legacy_record
       (empty_hass, scenario_entry\<lparr>options := [CONF_ALLOW_UNREACHABLE \<mapsto> VBool True]\<rparr>)))
     CONF_ALLOW_UNREACHABLE = Some (VBool False)
   \<and> length (updates (fst (overwrite_from_yaml legacy_record
       (empty_hass, scenario_entry\<lparr>options := [CONF_ALLOW_UNREACHABLE \<mapsto> VBool True]\<rparr>)))) = 1"
  using legacy_override [of legacy_record empty_hass
      "scenario_entry\<lparr>options := [CONF_ALLOW_UNREACHABLE \<mapsto> VBool True]\<rparr>"]
  by (simp add: case_prod_beta Let_def override_fires_def legacy_record_def empty_hass_def
      keys_distinct)

section \<open>What a stage leaves alone\<close>

lemma migrate_flag_entry:
  "entry_id (snd (migrate_flag conf dflt (hass, entry))) = entry_id entry"
  "unique_id (snd (migrate_flag conf dflt (hass, entry))) = unique_id entry"
  "k \<noteq> conf \<Longrightarrow> data (snd (migrate_flag conf dflt (hass, entry))) k = data entry k"
  "k \<noteq> conf \<Longrightarrow> options (snd (migrate_flag conf dflt (hass, entry))) k = options entry k"
  by (cases "migration_fires conf dflt entry"; simp add: migrate_flag_fires migrate_flag_idle)+

lemma overwrite_from_yaml_entry:
  "entry_id (snd (overwrite_from_yaml config (hass, entry))) = entry_id entry"
  "unique_id (snd (overwrite_from_yaml config (hass, entry))) = unique_id entry"
  "data (snd (overwrite_from_yaml config (hass, entry))) = data entry"
  by (cases "override_fires (allow_hue_groups config) (options entry CONF_ALLOW_HUE_GROUPS)
     \<or> override_fires (allow_unreachable config) (options entry CONF_ALLOW_UNREACHABLE)";
      simp add: overwrite_from_yaml_fires overwrite_from_yaml_idle)+

text \<open>
  C10. A flag migration keeps every key of \<open>data\<close> but the migrated flag, so the
  host too, and every key that \<open>options\<close> had, in the entry and in the write it
  makes; the override stage leaves \<open>data\<close> as it is and passes no \<open>data\<close> in
  its write.
\<close>

theorem merge_stage_frame:
  "(let (hass', entry') = migrate_flag conf dflt (hass, entry)
    in (\<forall>k. k \<noteq> conf \<longrightarrow> data entry' k = data entry k)
     \<and> (\<forall>k. options entry k \<noteq> None \<longrightarrow> options entry' k = options entry k)
     \<and> (\<exists>ws. updates hass' = updates hass @ ws
          \<and> (\<forall>w \<in> set ws. upd_data w = Some (data entry')
                \<and> upd_options w = Some (options entry'))))
   \<and> (let (hass', entry') = overwrite_from_yaml config (hass, entry)
      in data entry' = data entry
       \<and> (\<exists>ws. updates hass' = updates hass @ ws
            \<and> (\<forall>w \<in> set ws. upd_data w = None \<and> upd_options w = Some (options entry'))))"
proof (intro conjI)
  show "let (hass', entry') = migrate_flag conf dflt (hass, entry)
    in (\<forall>k. k \<noteq> conf \<longrightarrow> data entry' k = data entry k)
     \<and> (\<forall>k. options entry k \<noteq> None \<longrightarrow> options entry' k = options entry k)
     \<and> (\<exists>ws. updates hass' = updates hass @ ws
          \<and> (\<forall>w \<in> set ws. upd_data w = Some (data entry')
                \<and> upd_options w = Some (options entry')))"
  proof (cases "migration_fires conf dflt entry")
    case True
    then have "options entry conf = None" by (simp add: migration_fires_def)
    then have "\<forall>k. options entry k \<noteq> None \<longrightarrow> k \<noteq> conf" by auto
    then show ?thesis
      unfolding migrate_flag_fires [OF True] Let_def prod.case by simp
  next
    case False
    show ?thesis
      unfolding migrate_flag_idle [OF False] Let_def prod.case by simp
  qed
next
  show "let (hass', entry') = overwrite_from_yaml config (hass, entry)
      in data entry' = data entry
       \<and> (\<exists>ws. updates hass' = updates hass @ ws
            \<and> (\<forall>w \<in> set ws. upd_data w = None \<and> upd_options w = Some (options entry')))"
  proof (cases "override_fires (allow_hue_groups config) (options entry CONF_ALLOW_HUE_GROUPS)
     \<or> override_fires (allow_unreachable config) (options entry CONF_ALLOW_UNREACHABLE)")
    case True
    show ?thesis
      unfolding overwrite_from_yaml_fires [OF True] Let_def prod.case by simp
  next
    case False
    show ?thesis
      unfolding overwrite_from_yaml_idle [OF False] Let_def prod.case by simp
  qed
qed

theorem merge_stage_frame_witness:
  "data (snd (migrate_flag CONF_ALLOW_UNREACHABLE False (empty_hass, scenario_entry))) CONF_HOST
     = Some (VStr ''10.0.0.5'')
   \<and> data (snd (overwrite_from_yaml legacy_record (empty_hass, scenario_entry)))
     = data scenario_entry"
proof -
  have h: "data scenario_entry CONF_HOST = Some (VStr ''10.0.0.5'')"
    by (simp add: scenario_entry_def keys_distinct)
  have "data (snd (migrate_flag CONF_ALLOW_UNREACHABLE False (empty_hass, scenario_entry))) CONF_HOST
     = data scenario_entry CONF_HOST"
    using merge_stage_frame [of CONF_ALLOW_UNREACHABLE False empty_hass scenario_entry
        legacy_record] keys_distinct(5)
    by (simp add: case_prod_beta)
  moreover have "data (snd (overwrite_from_yaml legacy_record (empty_hass, scenario_entry)))
     = data scenario_entry"
    using merge_stage_frame [of CONF_ALLOW_UNREACHABLE False empty_hass scenario_entry
        legacy_record]
    by (simp add: case_prod_beta)
  ultimately show ?thesis using h by simp
qed

section \<open>The merge as a whole\<close>

lemma migrations_data:
  "data (snd (migrate_flag CONF_ALLOW_HUE_GROUPS dH
       (migrate_flag CONF_ALLOW_UNREACHABLE dU (hass, entry)))) k =
     (if (k = CONF_ALLOW_UNREACHABLE \<and> migration_fires CONF_ALLOW_UNREACHABLE dU entry)
         \<or> (k = CONF_ALLOW_HUE_GROUPS \<and> migration_fires CONF_ALLOW_HUE_GROUPS dH entry)
      then None else data entry k)"
proof -
  obtain h1 e1 where s1: "migrate_flag CONF_ALLOW_UNREACHABLE dU (hass, entry) = (h1, e1)"
    by (cases "migrate_flag CONF_ALLOW_UNREACHABLE dU (hass, entry)")
  then have e1: "e1 = snd (migrate_flag CONF_ALLOW_UNREACHABLE dU (hass, entry))" by simp
  have f2: "migration_fires CONF_ALLOW_HUE_GROUPS dH e1
      = migration_fires CONF_ALLOW_HUE_GROUPS dH entry"
    unfolding e1 by (rule migration_fires_other [OF keys_distinct(1)])
  have d1: "data e1 k =
      (if k = CONF_ALLOW_UNREACHABLE \<and> migration_fires CONF_ALLOW_UNREACHABLE dU entry
       then None else data entry k)"
    unfolding e1 by (cases "migration_fires CONF_ALLOW_UNREACHABLE dU entry")
      (simp_all add: migrate_flag_fires migrate_flag_idle)
  have d2: "data (snd (migrate_flag CONF_ALLOW_HUE_GROUPS dH (h1, e1))) k =
      (if k = CONF_ALLOW_HUE_GROUPS \<and> migration_fires CONF_ALLOW_HUE_GROUPS dH e1
       then None else data e1 k)"
    by (cases "migration_fires CONF_ALLOW_HUE_GROUPS dH e1")
      (simp_all add: migrate_flag_fires migrate_flag_idle)
  show ?thesis unfolding s1 d2 f2 d1 by (auto simp: keys_distinct)
qed

lemma migrations_options:
  "options (snd (migrate_flag CONF_ALLOW_HUE_GROUPS dH
       (migrate_flag CONF_ALLOW_UNREACHABLE dU (hass, entry)))) k =
     (if (k = CONF_ALLOW_UNREACHABLE \<and> migration_fires CONF_ALLOW_UNREACHABLE dU entry)
         \<or> (k = CONF_ALLOW_HUE_GROUPS \<and> migration_fires CONF_ALLOW_HUE_GROUPS dH entry)
      then data entry k else options entry k)"
proof -
  obtain h1 e1 where s1: "migrate_flag CONF_ALLOW_UNREACHABLE dU (hass, entry) = (h1, e1)"
    by (cases "migrate_flag CONF_ALLOW_UNREACHABLE dU (hass, entry)")
  then have e1: "e1 = snd (migrate_flag CONF_ALLOW_UNREACHABLE dU (hass, entry))" by simp
  have f2: "migration_fires CONF_ALLOW_HUE_GROUPS dH e1
      = migration_fires CONF_ALLOW_HUE_GROUPS dH entry"
    unfolding e1 by (rule migration_fires_other [OF keys_distinct(1)])
  have o1: "options e1 k =
      (if k = CONF_ALLOW_UNREACHABLE \<and> migration_fires CONF_ALLOW_UNREACHABLE dU entry
       then data entry k else options entry k)"
    unfolding e1 by (cases "migration_fires CONF_ALLOW_UNREACHABLE dU entry")
      (simp_all add: migrate_flag_fires migrate_flag_idle)
  have dg: "data e1 CONF_ALLOW_HUE_GROUPS = data entry CONF_ALLOW_HUE_GROUPS"
    unfolding e1 by (rule migrate_flag_entry(3) [OF keys_distinct(2)])
  have o2: "options (snd (migrate_flag CONF_ALLOW_HUE_GROUPS dH (h1, e1))) k =
      (if k = CONF_ALLOW_HUE_GROUPS \<and> migration_fires CONF_ALLOW_HUE_GROUPS dH e1
       then data e1 k else options e1 k)"
    by (cases "migration_fires CONF_ALLOW_HUE_GROUPS dH e1")
      (simp_all add: migrate_flag_fires migrate_flag_idle)
  show ?thesis unfolding s1 o2 f2 o1 using dg by (auto simp: keys_distinct)
qed

lemma overwrite_from_yaml_data:
  "data (snd (overwrite_from_yaml config s)) = data (snd s)"
  by (cases s) (simp add: overwrite_from_yaml_entry)

lemma overwrite_from_yaml_options:
  "options (snd (overwrite_from_yaml config s)) k =
     (if k = CONF_ALLOW_UNREACHABLE
      then overridden (allow_unreachable config) (options (snd s) CONF_ALLOW_UNREACHABLE)
      else if k = CONF_ALLOW_HUE_GROUPS
      then overridden (allow_hue_groups config) (options (snd s) CONF_ALLOW_HUE_GROUPS)
      else options (snd s) k)"
proof (cases s)
  case (Pair hass entry)
  show ?thesis
  proof (cases "override_fires (allow_hue_groups config) (options entry CONF_ALLOW_HUE_GROUPS)
     \<or> override_fires (allow_unreachable config) (options entry CONF_ALLOW_UNREACHABLE)")
    case True
    show ?thesis
      unfolding Pair overwrite_from_yaml_fires [OF True] overlay_eq
      by (simp add: keys_distinct)
  next
    case False
    then show ?thesis
      unfolding Pair overwrite_from_yaml_idle [OF False]
      by (simp add: overridden_def)
  qed
qed

lemma merge_entry_data:
  "data (snd (merge_entry x config (hass, entry))) k =
     (if (k = CONF_ALLOW_UNREACHABLE
            \<and> migration_fires CONF_ALLOW_UNREACHABLE (DEFAULT_ALLOW_UNREACHABLE x) entry)
         \<or> (k = CONF_ALLOW_HUE_GROUPS
            \<and> migration_fires CONF_ALLOW_HUE_GROUPS (DEFAULT_ALLOW_HUE_GROUPS x) entry)
      then None else data entry k)"
  unfolding merge_entry_def Let_def
  by (cases config) (simp_all only: option.case overwrite_from_yaml_data migrations_data)

lemma merge_entry_options:
  "options (snd (merge_entry x config (hass, entry))) k =
     (case config of
        None \<Rightarrow> migrated_option x entry k
      | Some c \<Rightarrow>
          if k = CONF_ALLOW_UNREACHABLE
          then overridden (allow_unreachable c) (migrated_option x entry CONF_ALLOW_UNREACHABLE)
          else if k = CONF_ALLOW_HUE_GROUPS
          then overridden (allow_hue_groups c) (migrated_option x entry CONF_ALLOW_HUE_GROUPS)
          else migrated_option x entry k)"
  unfolding merge_entry_def Let_def migrated_option_def
  by (cases config)
     (simp_all only: option.case overwrite_from_yaml_options migrations_options)

section \<open>The setup of an entry\<close>

lemma firmware_advisory_frame:
  "hue_data (firmware_advisory config hass) = hue_data hass"
  "hue_configs (firmware_advisory config hass) = hue_configs hass"
  "updates (firmware_advisory config hass) = updates hass"
  "devices (firmware_advisory config hass) = devices hass"
  by (simp_all add: firmware_advisory_def)

lemma finish_setup_entry:
  "data (snd (finish_setup x hass entry bridge)) = data entry"
  "options (snd (finish_setup x hass entry bridge)) = options entry"
  "entry_id (snd (finish_setup x hass entry bridge)) = entry_id entry"
  "unique_id (snd (finish_setup x hass entry bridge)) =
     (case unique_id entry of
        None \<Rightarrow> Some (normalize_bridge_id x (bridgeid (api_config bridge)))
      | Some u \<Rightarrow> Some u)"
  by (cases "unique_id entry"; simp add: finish_setup_def Let_def async_update_entry_def)+

lemma finish_setup_updates:
  "updates (fst (finish_setup x hass entry bridge)) =
     updates hass @
       (if unique_id entry = None
        then [\<lparr>upd_entry_id = entry_id entry, upd_data = None, upd_options = None,
               upd_unique_id = Some (normalize_bridge_id x (bridgeid (api_config bridge)))\<rparr>]
        else [])"
  by (cases "unique_id entry")
     (simp_all add: finish_setup_def Let_def async_update_entry_def firmware_advisory_frame)

lemma setup_entry_no_host:
  "data entry CONF_HOST = None \<Longrightarrow>
   async_setup_entry x hass entry bridge = (Inl KeyError, hass, entry)"
  by (simp add: async_setup_entry_def)

lemma setup_entry_failed:
  "data entry CONF_HOST = Some h \<Longrightarrow> \<not> setup_result bridge \<Longrightarrow>
   async_setup_entry x hass entry bridge =
     (Inr False, merge_entry x (hue_configs hass h) (hass, entry))"
  by (simp add: async_setup_entry_def Let_def case_prod_beta)

lemma setup_entry_ok:
  "data entry CONF_HOST = Some h \<Longrightarrow> setup_result bridge \<Longrightarrow>
   async_setup_entry x hass entry bridge =
     (Inr True,
      finish_setup x (fst (merge_entry x (hue_configs hass h) (hass, entry)))
        (snd (merge_entry x (hue_configs hass h) (hass, entry))) bridge)"
  by (simp add: async_setup_entry_def Let_def case_prod_beta)

lemma setup_entry_data:
  "data entry CONF_HOST = Some h \<Longrightarrow>
   data (snd (snd (async_setup_entry x hass entry bridge))) =
     data (snd (merge_entry x (hue_configs hass h) (hass, entry)))"
  by (cases "setup_result bridge")
     (simp_all add: setup_entry_ok setup_entry_failed finish_setup_entry)

lemma setup_entry_options:
  "data entry CONF_HOST = Some h \<Longrightarrow>
   options (snd (snd (async_setup_entry x hass entry bridge))) =
     options (snd (merge_entry x (hue_configs hass h) (hass, entry)))"
  by (cases "setup_result bridge")
     (simp_all add: setup_entry_ok setup_entry_failed finish_setup_entry)

lemma overridden_Some:
  "overridden (Some b) opt = Some (VBool b)"
  by (auto simp: overridden_def override_fires_def)

text \<open>
  C1. When \<open>data\<close> holds \<^verbatim>\<open>allow_unreachable=true\<close>, the default is false and
  the legacy record of the entry's host holds \<^verbatim>\<open>allow_unreachable=false\<close>, the
  options after the setup of the entry hold false, whatever the bridge does: when the
  options did not have the flag, the first migration moves true into them, and the
  override then replaces it.
\<close>

theorem legacy_override_wins:
  assumes "data entry CONF_HOST = Some h"
    and "hue_configs hass h = Some config"
    and "allow_unreachable config = Some False"
    and "data entry CONF_ALLOW_UNREACHABLE = Some (VBool True)"
    and "DEFAULT_ALLOW_UNREACHABLE x = False"
  shows "options (snd (snd (async_setup_entry x hass entry bridge))) CONF_ALLOW_UNREACHABLE
           = Some (VBool False)
         \<and> (if options entry CONF_ALLOW_UNREACHABLE = None
            then options (snd (migrate_flag CONF_ALLOW_UNREACHABLE
                   (DEFAULT_ALLOW_UNREACHABLE x) (hass, entry))) CONF_ALLOW_UNREACHABLE
                 = Some (VBool True)
            else snd (migrate_flag CONF_ALLOW_UNREACHABLE
                   (DEFAULT_ALLOW_UNREACHABLE x) (hass, entry)) = entry)"
proof
  show "options (snd (snd (async_setup_entry x hass entry bridge))) CONF_ALLOW_UNREACHABLE
           = Some (VBool False)"
    unfolding setup_entry_options [OF assms(1)] assms(2) merge_entry_options
    by (simp add: assms(3) overridden_Some)
next
  show "if options entry CONF_ALLOW_UNREACHABLE = None
        then options (snd (migrate_flag CONF_ALLOW_UNREACHABLE
               (DEFAULT_ALLOW_UNREACHABLE x) (hass, entry))) CONF_ALLOW_UNREACHABLE
             = Some (VBool True)
        else snd (migrate_flag CONF_ALLOW_UNREACHABLE
               (DEFAULT_ALLOW_UNREACHABLE x) (hass, entry)) = entry"
  proof (cases "options entry CONF_ALLOW_UNREACHABLE = None")
    case True
    with assms(4,5) have "migration_fires CONF_ALLOW_UNREACHABLE (DEFAULT_ALLOW_UNREACHABLE x) entry"
      by (simp add: migration_fires_def)
    with True assms(4) show ?thesis by (simp add: migrate_flag_fires)
  next
    case False
    then have "\<not> migration_fires CONF_ALLOW_UNREACHABLE (DEFAULT_ALLOW_UNREACHABLE x) entry"
      by (simp add: migration_fires_def)
    with False show ?thesis by (simp add: migrate_flag_idle)
  qed
qed

theorem legacy_override_wins_witness:
  "options (snd (snd (async_setup_entry plain_ext
      (empty_hass\<lparr>hue_configs := [VStr ''10.0.0.5'' \<mapsto> legacy_record]\<rparr>)
      scenario_entry vulnerable_bridge))) CONF_ALLOW_UNREACHABLE = Some (VBool False)"
proof -
  have 1: "data scenario_entry CONF_HOST = Some (VStr ''10.0.0.5'')"
    by (simp add: scenario_entry_def keys_distinct)
  have 2: "hue_configs (empty_hass\<lparr>hue_configs := [VStr ''10.0.0.5'' \<mapsto> legacy_record]\<rparr>)
      (VStr ''10.0.0.5'') = Some legacy_record"
    by simp
  have 3: "allow_unreachable legacy_record = Some False"
    by (simp add: legacy_record_def)
  have 4: "data scenario_entry CONF_ALLOW_UNREACHABLE = Some (VBool True)"
    by (simp add: scenario_entry_def)
  have 5: "DEFAULT_ALLOW_UNREACHABLE plain_ext = False"
    by (simp add: plain_ext_def)
  from legacy_override_wins [OF 1 2 3 4 5, of vulnerable_bridge]
  show ?thesis by (rule conjunct1)
qed

lemma migrate_flag_frame:
  "hue_data (fst (migrate_flag conf dflt s)) = hue_data (fst s)"
  "hue_configs (fst (migrate_flag conf dflt s)) = hue_configs (fst s)"
  "devices (fst (migrate_flag conf dflt s)) = devices (fst s)"
  "notifications (fst (migrate_flag conf dflt s)) = notifications (fst s)"
  "warnings (fst (migrate_flag conf dflt s)) = warnings (fst s)"
  "unique_id (snd (migrate_flag conf dflt s)) = unique_id (snd s)"
  "entry_id (snd (migrate_flag conf dflt s)) = entry_id (snd s)"
  by (cases s; cases "migration_fires conf dflt (snd s)";
      simp add: migrate_flag_fires migrate_flag_idle)+

lemma overwrite_from_yaml_frame:
  "hue_data (fst (overwrite_from_yaml config s)) = hue_data (fst s)"
  "hue_configs (fst (overwrite_from_yaml config s)) = hue_configs (fst s)"
  "devices (fst (overwrite_from_yaml config s)) = devices (fst s)"
  "notifications (fst (overwrite_from_yaml config s)) = notifications (fst s)"
  "warnings (fst (overwrite_from_yaml config s)) = warnings (fst s)"
  "unique_id (snd (overwrite_from_yaml config s)) = unique_id (snd s)"
  "entry_id (snd (overwrite_from_yaml config s)) = entry_id (snd s)"
  by (cases s;
      cases "override_fires (allow_hue_groups config) (options (snd s) CONF_ALLOW_HUE_GROUPS)
        \<or> override_fires (allow_unreachable config) (options (snd s) CONF_ALLOW_UNREACHABLE)";
      simp add: overwrite_from_yaml_fires overwrite_from_yaml_idle del: disj_not1)+

lemma merge_entry_frame:
  "hue_data (fst (merge_entry x config s)) = hue_data (fst s)"
  "hue_configs (fst (merge_entry x config s)) = hue_configs (fst s)"
  "devices (fst (merge_entry x config s)) = devices (fst s)"
  "notifications (fst (merge_entry x config s)) = notifications (fst s)"
  "warnings (fst (merge_entry x config s)) = warnings (fst s)"
  "unique_id (snd (merge_entry x config s)) = unique_id (snd s)"
  "entry_id (snd (merge_entry x config s)) = entry_id (snd s)"
  by (cases config;
      simp add: merge_entry_def Let_def migrate_flag_frame overwrite_from_yaml_frame)+

text \<open>
  C5, as the code has it. After the setup of an entry that has a host, \<open>data\<close> no
  longer holds a flag whose migration fired; a flag that stays behind, because its
  value is the default or \<open>options\<close> held the flag already, is unchanged, and so is
  every other key.
\<close>

theorem merge_data_flags:
  assumes "data entry CONF_HOST = Some h"
  shows "data (snd (snd (async_setup_entry x hass entry bridge))) k =
    (if (k = CONF_ALLOW_UNREACHABLE
           \<and> migration_fires CONF_ALLOW_UNREACHABLE (DEFAULT_ALLOW_UNREACHABLE x) entry)
        \<or> (k = CONF_ALLOW_HUE_GROUPS
           \<and> migration_fires CONF_ALLOW_HUE_GROUPS (DEFAULT_ALLOW_HUE_GROUPS x) entry)
     then None else data entry k)"
  unfolding setup_entry_data [OF assms] by (rule merge_entry_data)

theorem merge_data_flags_witness:
  "data (snd (snd (async_setup_entry plain_ext empty_hass scenario_entry vulnerable_bridge)))
     CONF_ALLOW_UNREACHABLE = None
   \<and> data (snd (snd (async_setup_entry plain_ext empty_hass scenario_entry vulnerable_bridge)))
     CONF_HOST = Some (VStr ''10.0.0.5'')"
proof -
  have h: "data scenario_entry CONF_HOST = Some (VStr ''10.0.0.5'')"
    by (simp add: scenario_entry_def keys_distinct)
  have f: "migration_fires CONF_ALLOW_UNREACHABLE (DEFAULT_ALLOW_UNREACHABLE plain_ext)
      scenario_entry"
    by (simp add: plain_ext_def scenario_fires)
  show ?thesis
    using merge_data_flags [OF h, of plain_ext empty_hass vulnerable_bridge
        CONF_ALLOW_UNREACHABLE]
      merge_data_flags [OF h, of plain_ext empty_hass vulnerable_bridge CONF_HOST]
    by (simp add: f h keys_distinct)
qed

text \<open>
  The claim C5 as it is written fails on an entry whose \<open>data\<close> holds
  \<^verbatim>\<open>allow_unreachable\<close> at its default: the guard of line 111 leaves the flag in
  \<open>data\<close>.
\<close>

theorem default_flag_stays_in_data:
  "data (snd (snd (async_setup_entry plain_ext empty_hass default_flag_entry vulnerable_bridge)))
     CONF_ALLOW_UNREACHABLE = Some (VBool False)"
proof -
  have h: "data default_flag_entry CONF_HOST = Some (VStr ''10.0.0.5'')"
    by (simp add: default_flag_entry_def keys_distinct)
  show ?thesis
    unfolding setup_entry_data [OF h] merge_entry_data
    by (simp add: migration_fires_def default_flag_entry_def plain_ext_def keys_distinct)
qed

text \<open>
  C8. When the setup of the bridge returns false, the setup of an entry with a host
  returns false; the connection map, the device registrations and the unique
  identifier are as they were. An entry with no host has raised \<^verbatim>\<open>KeyError\<close>
  before, with nothing changed.
\<close>

theorem setup_failure_stops:
  assumes "\<not> setup_result bridge"
  shows "fst (async_setup_entry x hass entry bridge) =
           (if data entry CONF_HOST = None then Inl KeyError else Inr False)
         \<and> hue_data (fst (snd (async_setup_entry x hass entry bridge))) = hue_data hass
         \<and> devices (fst (snd (async_setup_entry x hass entry bridge))) = devices hass
         \<and> unique_id (snd (snd (async_setup_entry x hass entry bridge))) = unique_id entry"
proof (cases "data entry CONF_HOST")
  case None
  then show ?thesis by (simp add: setup_entry_no_host)
next
  case (Some h)
  then show ?thesis
    by (simp add: setup_entry_failed [OF Some assms] merge_entry_frame)
qed

theorem setup_failure_stops_witness:
  "fst (async_setup_entry plain_ext empty_hass scenario_entry
         (vulnerable_bridge\<lparr>setup_result := False\<rparr>)) = Inr False
   \<and> hue_data (fst (snd (async_setup_entry plain_ext empty_hass scenario_entry
         (vulnerable_bridge\<lparr>setup_result := False\<rparr>)))) ''entry1'' = None
   \<and> devices (fst (snd (async_setup_entry plain_ext empty_hass scenario_entry
         (vulnerable_bridge\<lparr>setup_result := False\<rparr>)))) = []"
proof -
  have b: "\<not> setup_result (vulnerable_bridge\<lparr>setup_result := False\<rparr>)" by simp
  have h: "data scenario_entry CONF_HOST = Some (VStr ''10.0.0.5'')"
    by (simp add: scenario_entry_def keys_distinct)
  show ?thesis
    using setup_failure_stops [OF b, of plain_ext empty_hass scenario_entry]
    by (simp add: h empty_hass_def)
qed

section \<open>The firmware advisory\<close>

lemma firmware_advisory_logs:
  "notifications (firmware_advisory config hass) =
     notifications hass @
       (if modelid config = ''BSB002'' \<and> str_less (swversion config) ''1935144040''
        then [security_notification] else [])"
  "warnings (firmware_advisory config hass) =
     warnings hass @
       (if \<not> (modelid config = ''BSB002'' \<and> str_less (swversion config) ''1935144040'')
           \<and> swupdate2_bridge_state config = ''readytoinstall''
        then [update_warning] else [])"
  by (simp_all add: firmware_advisory_def)

lemma finish_setup_advisory:
  "notifications (fst (finish_setup x hass entry bridge)) =
     notifications hass @
       (if modelid (api_config bridge) = ''BSB002''
           \<and> str_less (swversion (api_config bridge)) ''1935144040''
        then [security_notification] else [])"
  "warnings (fst (finish_setup x hass entry bridge)) =
     warnings hass @
       (if \<not> (modelid (api_config bridge) = ''BSB002''
              \<and> str_less (swversion (api_config bridge)) ''1935144040'')
           \<and> swupdate2_bridge_state (api_config bridge) = ''readytoinstall''
        then [update_warning] else [])"
  by (cases "unique_id entry";
      simp add: finish_setup_def Let_def async_update_entry_def firmware_advisory_logs)+

lemma finish_setup_frame:
  "hue_data (fst (finish_setup x hass entry bridge)) = (hue_data hass)(entry_id entry \<mapsto> bridge)"
  "hue_configs (fst (finish_setup x hass entry bridge)) = hue_configs hass"
  by (cases "unique_id entry";
      simp add: finish_setup_def Let_def async_update_entry_def firmware_advisory_frame)+

lemma setup_entry_result:
  "fst (async_setup_entry x hass entry bridge) =
     (case data entry CONF_HOST of None \<Rightarrow> Inl KeyError | Some h \<Rightarrow> Inr (setup_result bridge))"
proof (cases "data entry CONF_HOST")
  case None
  then show ?thesis by (simp add: setup_entry_no_host)
next
  case (Some h)
  then show ?thesis
    by (cases "setup_result bridge") (simp_all add: setup_entry_ok setup_entry_failed)
qed

lemma setup_entry_advisory:
  "notifications (fst (snd (async_setup_entry x hass entry bridge))) =
     notifications hass @
       (if data entry CONF_HOST \<noteq> None \<and> setup_result bridge
           \<and> modelid (api_config bridge) = ''BSB002''
           \<and> str_less (swversion (api_config bridge)) ''1935144040''
        then [security_notification] else [])"
  "warnings (fst (snd (async_setup_entry x hass entry bridge))) =
     warnings hass @
       (if data entry CONF_HOST \<noteq> None \<and> setup_result bridge
           \<and> \<not> (modelid (api_config bridge) = ''BSB002''
                \<and> str_less (swversion (api_config bridge)) ''1935144040'')
           \<and> swupdate2_bridge_state (api_config bridge) = ''readytoinstall''
        then [update_warning] else [])"
proof -
  show "notifications (fst (snd (async_setup_entry x hass entry bridge))) =
     notifications hass @
       (if data entry CONF_HOST \<noteq> None \<and> setup_result bridge
           \<and> modelid (api_config bridge) = ''BSB002''
           \<and> str_less (swversion (api_config bridge)) ''1935144040''
        then [security_notification] else [])"
  proof (cases "data entry CONF_HOST")
    case None
    then show ?thesis by (simp add: setup_entry_no_host)
  next
    case (Some h)
    show ?thesis
    proof (cases "setup_result bridge")
      case True
      show ?thesis
        unfolding setup_entry_ok [OF Some True] snd_conv finish_setup_advisory merge_entry_frame
        using Some True by simp
    next
      case False
      show ?thesis
        unfolding setup_entry_failed [OF Some False] snd_conv merge_entry_frame
        using Some False by simp
    qed
  qed
  show "warnings (fst (snd (async_setup_entry x hass entry bridge))) =
     warnings hass @
       (if data entry CONF_HOST \<noteq> None \<and> setup_result bridge
           \<and> \<not> (modelid (api_config bridge) = ''BSB002''
                \<and> str_less (swversion (api_config bridge)) ''1935144040'')
           \<and> swupdate2_bridge_state (api_config bridge) = ''readytoinstall''
        then [update_warning] else [])"
  proof (cases "data entry CONF_HOST")
    case None
    then show ?thesis by (simp add: setup_entry_no_host)
  next
    case (Some h)
    show ?thesis
    proof (cases "setup_result bridge")
      case True
      show ?thesis
        unfolding setup_entry_ok [OF Some True] snd_conv finish_setup_advisory merge_entry_frame
        using Some True by simp
    next
      case False
      show ?thesis
        unfolding setup_entry_failed [OF Some False] snd_conv merge_entry_frame
        using Some False by simp
    qed
  qed
qed

text \<open>
  C7. A setup call adds at most one advisory, a notification or a warning. For a
  bridge of model \<^verbatim>\<open>BSB002\<close> whose firmware is below \<^verbatim>\<open>1935144040\<close>, a setup
  that reaches the advisory adds the security notification and no warning, whatever
  \<^verbatim>\<open>swupdate2_bridge_state\<close> is. The result of the call is decided by the host key
  and the bridge's setup alone, never by the descriptor.
\<close>

theorem firmware_advisories_exclusive:
  "(\<exists>ns ws.
      notifications (fst (snd (async_setup_entry x hass entry bridge))) = notifications hass @ ns
      \<and> warnings (fst (snd (async_setup_entry x hass entry bridge))) = warnings hass @ ws
      \<and> length ns + length ws \<le> 1)
   \<and> (data entry CONF_HOST \<noteq> None \<and> setup_result bridge
        \<and> modelid (api_config bridge) = ''BSB002''
        \<and> str_less (swversion (api_config bridge)) ''1935144040'' \<longrightarrow>
      notifications (fst (snd (async_setup_entry x hass entry bridge)))
        = notifications hass @ [security_notification]
      \<and> warnings (fst (snd (async_setup_entry x hass entry bridge))) = warnings hass)
   \<and> fst (async_setup_entry x hass entry bridge) =
       (case data entry CONF_HOST of
          None \<Rightarrow> Inl KeyError
        | Some h \<Rightarrow> Inr (setup_result bridge))"
proof (intro conjI)
  show "\<exists>ns ws.
      notifications (fst (snd (async_setup_entry x hass entry bridge))) = notifications hass @ ns
      \<and> warnings (fst (snd (async_setup_entry x hass entry bridge))) = warnings hass @ ws
      \<and> length ns + length ws \<le> 1"
    unfolding setup_entry_advisory by simp
next
  show "data entry CONF_HOST \<noteq> None \<and> setup_result bridge
        \<and> modelid (api_config bridge) = ''BSB002''
        \<and> str_less (swversion (api_config bridge)) ''1935144040'' \<longrightarrow>
      notifications (fst (snd (async_setup_entry x hass entry bridge)))
        = notifications hass @ [security_notification]
      \<and> warnings (fst (snd (async_setup_entry x hass entry bridge))) = warnings hass"
    unfolding setup_entry_advisory by simp
next
  show "fst (async_setup_entry x hass entry bridge) =
       (case data entry CONF_HOST of
          None \<Rightarrow> Inl KeyError
        | Some h \<Rightarrow> Inr (setup_result bridge))"
    by (rule setup_entry_result)
qed

theorem firmware_advisories_exclusive_witness:
  "notifications (fst (snd (async_setup_entry plain_ext empty_hass scenario_entry
       vulnerable_bridge))) = [security_notification]
   \<and> warnings (fst (snd (async_setup_entry plain_ext empty_hass scenario_entry
       vulnerable_bridge))) = []
   \<and> swupdate2_bridge_state (api_config vulnerable_bridge) = ''readytoinstall''"
proof -
  have h: "data scenario_entry CONF_HOST \<noteq> None"
    by (simp add: scenario_entry_def keys_distinct)
  have b: "setup_result vulnerable_bridge"
    "modelid (api_config vulnerable_bridge) = ''BSB002''"
    "str_less (swversion (api_config vulnerable_bridge)) ''1935144040''"
    "swupdate2_bridge_state (api_config vulnerable_bridge) = ''readytoinstall''"
    by (simp_all add: vulnerable_bridge_def)
  have e: "notifications empty_hass = []" "warnings empty_hass = []"
    by (simp_all add: empty_hass_def)
  show ?thesis
    using firmware_advisories_exclusive [of plain_ext empty_hass scenario_entry vulnerable_bridge]
      h b e by simp
qed

section \<open>Unloading an entry\<close>

text \<open>
  C9. Unloading removes the bridge stored under the entry's id and returns what its
  reset returns; with no bridge stored it raises \<^verbatim>\<open>KeyError\<close> and the state is as
  it was. Nothing but the slot of the entry's id in the connection map changes.
\<close>

theorem unload_entry:
  "(case hue_data hass (entry_id entry) of
      None \<Rightarrow> async_unload_entry hass entry = (Inl KeyError, hass)
    | Some bridge \<Rightarrow>
        fst (async_unload_entry hass entry) = Inr (reset_result bridge)
        \<and> hue_data (snd (async_unload_entry hass entry)) (entry_id entry) = None)
   \<and> (\<forall>k. k \<noteq> entry_id entry \<longrightarrow>
        hue_data (snd (async_unload_entry hass entry)) k = hue_data hass k)
   \<and> (snd (async_unload_entry hass entry))\<lparr>hue_data := hue_data hass\<rparr> = hass"
  by (cases "hue_data hass (entry_id entry)") (simp_all add: async_unload_entry_def)

theorem unload_entry_witness:
  "fst (async_unload_entry (empty_hass\<lparr>hue_data := [''entry1'' \<mapsto> vulnerable_bridge]\<rparr>)
         scenario_entry) = Inr True
   \<and> hue_data (snd (async_unload_entry
         (empty_hass\<lparr>hue_data := [''entry1'' \<mapsto> vulnerable_bridge]\<rparr>) scenario_entry))
       ''entry1'' = None
   \<and> hue_data (snd (async_unload_entry
         (empty_hass\<lparr>hue_data := [''entry1'' \<mapsto> vulnerable_bridge]\<rparr>) scenario_entry))
       ''entry2'' = None
   \<and> async_unload_entry empty_hass scenario_entry = (Inl KeyError, empty_hass)"
proof -
  have i: "entry_id scenario_entry = ''entry1''" by (simp add: scenario_entry_def)
  have r: "reset_result vulnerable_bridge" by (simp add: vulnerable_bridge_def)
  have e: "hue_data empty_hass = Map.empty" by (simp add: empty_hass_def)
  show ?thesis
    using unload_entry [of "empty_hass\<lparr>hue_data := [''entry1'' \<mapsto> vulnerable_bridge]\<rparr>"
        scenario_entry]
      unload_entry [of empty_hass scenario_entry]
    by (simp add: i r e)
qed

section \<open>Running the setup again\<close>

lemma legacy_matches_iff:
  "legacy_matches legacy opt = (\<not> override_fires legacy opt)"
  by (cases legacy) (auto simp: legacy_matches_def override_fires_def)

lemma override_fires_overridden:
  "\<not> override_fires legacy (overridden legacy opt)"
  by (cases legacy) (auto simp: overridden_def override_fires_def)

lemma overridden_None:
  "overridden legacy opt = None \<Longrightarrow> opt = None"
  by (cases legacy) (auto simp: overridden_def override_fires_def split: if_splits)

lemma merge_entry_idle:
  assumes "\<not> migration_fires CONF_ALLOW_UNREACHABLE (DEFAULT_ALLOW_UNREACHABLE x) entry"
    and "\<not> migration_fires CONF_ALLOW_HUE_GROUPS (DEFAULT_ALLOW_HUE_GROUPS x) entry"
    and "case config of
           None \<Rightarrow> True
         | Some c \<Rightarrow>
             \<not> override_fires (allow_unreachable c) (options entry CONF_ALLOW_UNREACHABLE)
             \<and> \<not> override_fires (allow_hue_groups c) (options entry CONF_ALLOW_HUE_GROUPS)"
  shows "merge_entry x config (hass, entry) = (hass, entry)"
proof (cases config)
  case None
  then show ?thesis
    unfolding merge_entry_def Let_def migrate_flag_idle [OF assms(1)] migrate_flag_idle [OF assms(2)]
    by simp
next
  case (Some c)
  with assms(3) have "\<not> (override_fires (allow_hue_groups c) (options entry CONF_ALLOW_HUE_GROUPS)
     \<or> override_fires (allow_unreachable c) (options entry CONF_ALLOW_UNREACHABLE))"
    by simp
  then show ?thesis
    unfolding merge_entry_def Let_def migrate_flag_idle [OF assms(1)] migrate_flag_idle [OF assms(2)]
      Some option.case
    by (rule overwrite_from_yaml_idle)
qed

lemma setup_entry_settled:
  assumes "data entry CONF_HOST = Some h"
    and "\<not> migration_fires CONF_ALLOW_UNREACHABLE (DEFAULT_ALLOW_UNREACHABLE x) entry"
    and "\<not> migration_fires CONF_ALLOW_HUE_GROUPS (DEFAULT_ALLOW_HUE_GROUPS x) entry"
    and "case hue_configs hass h of
           None \<Rightarrow> True
         | Some c \<Rightarrow>
             \<not> override_fires (allow_unreachable c) (options entry CONF_ALLOW_UNREACHABLE)
             \<and> \<not> override_fires (allow_hue_groups c) (options entry CONF_ALLOW_HUE_GROUPS)"
    and "unique_id entry \<noteq> None"
  shows "updates (fst (snd (async_setup_entry x hass entry bridge))) = updates hass"
proof (cases "setup_result bridge")
  case True
  show ?thesis
    unfolding setup_entry_ok [OF assms(1) True] merge_entry_idle [OF assms(2,3,4)]
    using assms(5) by (simp add: finish_setup_updates)
next
  case False
  show ?thesis
    unfolding setup_entry_failed [OF assms(1) False] merge_entry_idle [OF assms(2,3,4)]
    by simp
qed

lemma first_run_settles:
  fixes x :: ext and hass :: hass and entry :: config_entry and bridge :: hue_bridge
  defines "entry1 \<equiv> snd (snd (async_setup_entry x hass entry bridge))"
    and "hass1 \<equiv> fst (snd (async_setup_entry x hass entry bridge))"
  assumes "data entry CONF_HOST = Some h" and "setup_result bridge"
  shows "data entry1 CONF_HOST = Some h"
    and "hue_configs hass1 = hue_configs hass"
    and "\<not> migration_fires CONF_ALLOW_UNREACHABLE (DEFAULT_ALLOW_UNREACHABLE x) entry1"
    and "\<not> migration_fires CONF_ALLOW_HUE_GROUPS (DEFAULT_ALLOW_HUE_GROUPS x) entry1"
    and "case hue_configs hass h of
           None \<Rightarrow> True
         | Some c \<Rightarrow>
             \<not> override_fires (allow_unreachable c) (options entry1 CONF_ALLOW_UNREACHABLE)
             \<and> \<not> override_fires (allow_hue_groups c) (options entry1 CONF_ALLOW_HUE_GROUPS)"
    and "unique_id entry1 \<noteq> None"
proof -
  let ?m = "merge_entry x (hue_configs hass h) (hass, entry)"
  have d: "data entry1 k = data (snd ?m) k" for k
    unfolding entry1_def setup_entry_data [OF assms(3)] ..
  have o: "options entry1 k = options (snd ?m) k" for k
    unfolding entry1_def setup_entry_options [OF assms(3)] ..
  show "data entry1 CONF_HOST = Some h"
    unfolding d merge_entry_data using assms(3) by (simp add: keys_distinct)
  show "hue_configs hass1 = hue_configs hass"
    unfolding hass1_def setup_entry_ok [OF assms(3,4)]
    by (simp add: finish_setup_frame merge_entry_frame)
  show "unique_id entry1 \<noteq> None"
    unfolding entry1_def setup_entry_ok [OF assms(3,4)]
    by (simp add: finish_setup_entry split: option.splits)
  show "case hue_configs hass h of
           None \<Rightarrow> True
         | Some c \<Rightarrow>
             \<not> override_fires (allow_unreachable c) (options entry1 CONF_ALLOW_UNREACHABLE)
             \<and> \<not> override_fires (allow_hue_groups c) (options entry1 CONF_ALLOW_HUE_GROUPS)"
    unfolding o merge_entry_options
    by (cases "hue_configs hass h") (simp_all add: override_fires_overridden keys_distinct)
  have none: "options entry1 k = None \<Longrightarrow> migrated_option x entry k = None" for k
    unfolding o merge_entry_options
    by (cases "hue_configs hass h") (auto dest: overridden_None split: if_splits)
  show "\<not> migration_fires CONF_ALLOW_UNREACHABLE (DEFAULT_ALLOW_UNREACHABLE x) entry1"
  proof (cases "migration_fires CONF_ALLOW_UNREACHABLE (DEFAULT_ALLOW_UNREACHABLE x) entry")
    case True
    then have "data entry1 CONF_ALLOW_UNREACHABLE = None"
      unfolding d merge_entry_data by simp
    then show ?thesis by (simp add: migration_fires_def)
  next
    case False
    then have "data entry1 CONF_ALLOW_UNREACHABLE = data entry CONF_ALLOW_UNREACHABLE"
      unfolding d merge_entry_data by (simp add: keys_distinct)
    moreover from False have "migrated_option x entry CONF_ALLOW_UNREACHABLE
        = options entry CONF_ALLOW_UNREACHABLE"
      by (simp add: migrated_option_def keys_distinct)
    ultimately have same: "data entry1 CONF_ALLOW_UNREACHABLE = data entry CONF_ALLOW_UNREACHABLE"
      "migrated_option x entry CONF_ALLOW_UNREACHABLE = options entry CONF_ALLOW_UNREACHABLE"
      by simp_all
    show ?thesis
    proof
      assume "migration_fires CONF_ALLOW_UNREACHABLE (DEFAULT_ALLOW_UNREACHABLE x) entry1"
      then have f: "data entry1 CONF_ALLOW_UNREACHABLE \<noteq> None"
        "options entry1 CONF_ALLOW_UNREACHABLE = None"
        "data entry1 CONF_ALLOW_UNREACHABLE \<noteq> Some (VBool (DEFAULT_ALLOW_UNREACHABLE x))"
        by (simp_all add: migration_fires_def)
      from none [OF f(2)] same(2) have "options entry CONF_ALLOW_UNREACHABLE = None" by simp
      with f(1,3) same(1) have "migration_fires CONF_ALLOW_UNREACHABLE (DEFAULT_ALLOW_UNREACHABLE x) entry"
        by (simp add: migration_fires_def)
      with False show False by simp
    qed
  qed
  show "\<not> migration_fires CONF_ALLOW_HUE_GROUPS (DEFAULT_ALLOW_HUE_GROUPS x) entry1"
  proof (cases "migration_fires CONF_ALLOW_HUE_GROUPS (DEFAULT_ALLOW_HUE_GROUPS x) entry")
    case True
    then have "data entry1 CONF_ALLOW_HUE_GROUPS = None"
      unfolding d merge_entry_data by simp
    then show ?thesis by (simp add: migration_fires_def)
  next
    case False
    then have "data entry1 CONF_ALLOW_HUE_GROUPS = data entry CONF_ALLOW_HUE_GROUPS"
      unfolding d merge_entry_data by (simp add: keys_distinct)
    moreover from False have "migrated_option x entry CONF_ALLOW_HUE_GROUPS
        = options entry CONF_ALLOW_HUE_GROUPS"
      by (simp add: migrated_option_def keys_distinct)
    ultimately have same: "data entry1 CONF_ALLOW_HUE_GROUPS = data entry CONF_ALLOW_HUE_GROUPS"
      "migrated_option x entry CONF_ALLOW_HUE_GROUPS = options entry CONF_ALLOW_HUE_GROUPS"
      by simp_all
    show ?thesis
    proof
      assume "migration_fires CONF_ALLOW_HUE_GROUPS (DEFAULT_ALLOW_HUE_GROUPS x) entry1"
      then have f: "data entry1 CONF_ALLOW_HUE_GROUPS \<noteq> None"
        "options entry1 CONF_ALLOW_HUE_GROUPS = None"
        "data entry1 CONF_ALLOW_HUE_GROUPS \<noteq> Some (VBool (DEFAULT_ALLOW_HUE_GROUPS x))"
        by (simp_all add: migration_fires_def)
      from none [OF f(2)] same(2) have "options entry CONF_ALLOW_HUE_GROUPS = None" by simp
      with f(1,3) same(1) have "migration_fires CONF_ALLOW_HUE_GROUPS (DEFAULT_ALLOW_HUE_GROUPS x) entry"
        by (simp add: migration_fires_def)
      with False show False by simp
    qed
  qed
qed

text \<open>
  C6. The setup of an entry that is fully migrated (no flag in \<open>data\<close>, the flags
  of the legacy record, if there is one, equal in \<open>options\<close>, a unique identifier
  assigned) makes no write. So does a second setup that follows a successful one, on
  the entry and the platform state the first one left, whatever the bridge does the
  second time.
\<close>

theorem reconciler_idempotent:
  "(data entry CONF_HOST = Some h \<and> fully_migrated (hue_configs hass h) entry \<longrightarrow>
      updates (fst (snd (async_setup_entry x hass entry bridge))) = updates hass)
   \<and> (fst (async_setup_entry x hass entry bridge) = Inr True \<longrightarrow>
      updates (fst (snd (async_setup_entry x
          (fst (snd (async_setup_entry x hass entry bridge)))
          (snd (snd (async_setup_entry x hass entry bridge))) bridge')))
      = updates (fst (snd (async_setup_entry x hass entry bridge))))"
proof (intro conjI impI)
  assume a: "data entry CONF_HOST = Some h \<and> fully_migrated (hue_configs hass h) entry"
  then have host: "data entry CONF_HOST = Some h"
    and fm: "fully_migrated (hue_configs hass h) entry"
    by simp_all
  from fm have 1: "\<not> migration_fires CONF_ALLOW_UNREACHABLE (DEFAULT_ALLOW_UNREACHABLE x) entry"
    and 2: "\<not> migration_fires CONF_ALLOW_HUE_GROUPS (DEFAULT_ALLOW_HUE_GROUPS x) entry"
    and 4: "unique_id entry \<noteq> None"
    by (simp_all add: fully_migrated_def migration_fires_def)
  from fm have 3: "case hue_configs hass h of
           None \<Rightarrow> True
         | Some c \<Rightarrow>
             \<not> override_fires (allow_unreachable c) (options entry CONF_ALLOW_UNREACHABLE)
             \<and> \<not> override_fires (allow_hue_groups c) (options entry CONF_ALLOW_HUE_GROUPS)"
    by (cases "hue_configs hass h") (simp_all add: fully_migrated_def legacy_matches_iff)
  show "updates (fst (snd (async_setup_entry x hass entry bridge))) = updates hass"
    by (rule setup_entry_settled [OF host 1 2 3 4])
next
  assume ok: "fst (async_setup_entry x hass entry bridge) = Inr True"
  then obtain h where host: "data entry CONF_HOST = Some h"
    unfolding setup_entry_result by (cases "data entry CONF_HOST") simp_all
  from ok host have b: "setup_result bridge"
    unfolding setup_entry_result by simp
  let ?hass1 = "fst (snd (async_setup_entry x hass entry bridge))"
  let ?entry1 = "snd (snd (async_setup_entry x hass entry bridge))"
  note s = first_run_settles [OF host b, of x hass]
  have c: "case hue_configs ?hass1 h of
           None \<Rightarrow> True
         | Some c \<Rightarrow>
             \<not> override_fires (allow_unreachable c) (options ?entry1 CONF_ALLOW_UNREACHABLE)
             \<and> \<not> override_fires (allow_hue_groups c) (options ?entry1 CONF_ALLOW_HUE_GROUPS)"
    unfolding s(2) by (rule s(5))
  show "updates (fst (snd (async_setup_entry x ?hass1 ?entry1 bridge'))) = updates ?hass1"
    by (rule setup_entry_settled [OF s(1) s(3) s(4) c s(6)])
qed

theorem reconciler_idempotent_witness:
  "updates (fst (snd (async_setup_entry plain_ext
       (empty_hass\<lparr>hue_configs := [VStr ''10.0.0.5'' \<mapsto> legacy_record]\<rparr>)
       migrated_entry vulnerable_bridge))) = []
   \<and> updates (fst (snd (async_setup_entry plain_ext
        (fst (snd (async_setup_entry plain_ext empty_hass scenario_entry vulnerable_bridge)))
        (snd (snd (async_setup_entry plain_ext empty_hass scenario_entry vulnerable_bridge)))
        vulnerable_bridge)))
     = updates (fst (snd (async_setup_entry plain_ext empty_hass scenario_entry
         vulnerable_bridge)))"
proof -
  have h: "data migrated_entry CONF_HOST = Some (VStr ''10.0.0.5'')"
    by (simp add: migrated_entry_def)
  have fm: "fully_migrated
      (hue_configs (empty_hass\<lparr>hue_configs := [VStr ''10.0.0.5'' \<mapsto> legacy_record]\<rparr>)
         (VStr ''10.0.0.5'')) migrated_entry"
    by (simp add: fully_migrated_def legacy_matches_def migrated_entry_def legacy_record_def
        keys_distinct)
  have u: "updates (empty_hass\<lparr>hue_configs := [VStr ''10.0.0.5'' \<mapsto> legacy_record]\<rparr>) = []"
    by (simp add: empty_hass_def)
  have ok: "fst (async_setup_entry plain_ext empty_hass scenario_entry vulnerable_bridge)
      = Inr True"
    unfolding setup_entry_result
    by (simp add: scenario_entry_def vulnerable_bridge_def keys_distinct)
  from reconciler_idempotent [of migrated_entry "VStr ''10.0.0.5''"
      "empty_hass\<lparr>hue_configs := [VStr ''10.0.0.5'' \<mapsto> legacy_record]\<rparr>"
      plain_ext vulnerable_bridge vulnerable_bridge] h fm u
  have first: "updates (fst (snd (async_setup_entry plain_ext
       (empty_hass\<lparr>hue_configs := [VStr ''10.0.0.5'' \<mapsto> legacy_record]\<rparr>)
       migrated_entry vulnerable_bridge))) = []"
    by simp
  from reconciler_idempotent [of scenario_entry "VStr ''10.0.0.5''" empty_hass
      plain_ext vulnerable_bridge vulnerable_bridge] ok
  have second: "updates (fst (snd (async_setup_entry plain_ext
        (fst (snd (async_setup_entry plain_ext empty_hass scenario_entry vulnerable_bridge)))
        (snd (snd (async_setup_entry plain_ext empty_hass scenario_entry vulnerable_bridge)))
        vulnerable_bridge)))
     = updates (fst (snd (async_setup_entry plain_ext empty_hass scenario_entry
         vulnerable_bridge)))"
    by simp
  from first second show ?thesis by simp
qed

section \<open>The import of the legacy configuration\<close>

lemma import_bridges_tasks:
  "tasks (import_bridges configured_hosts bridges hass) =
     tasks hass @
       map (\<lambda>bridge_conf. create_entry_request (host bridge_conf))
         (filter (\<lambda>bridge_conf. Some (VStr (host bridge_conf)) \<notin> configured_hosts) bridges)"
  by (induction bridges arbitrary: hass) (simp_all add: Let_def create_entry_request_def)

lemma async_setup_tasks:
  "tasks (snd (async_setup hass config)) =
     tasks hass @
       map (\<lambda>bridge_conf. create_entry_request (host bridge_conf))
         (filter (\<lambda>bridge_conf. Some (VStr (host bridge_conf))
              \<notin> set (map (\<lambda>entry. data entry CONF_HOST) (entries hass)))
            (legacy_bridges config))"
proof (cases config)
  case None
  then show ?thesis by (simp add: async_setup_def legacy_bridges_def)
next
  case (Some conf)
  show ?thesis
  proof (cases conf)
    case None
    with Some show ?thesis by (simp add: async_setup_def legacy_bridges_def)
  next
    case (Some bridges)
    with \<open>config = Some conf\<close> show ?thesis
      by (simp add: async_setup_def legacy_bridges_def Let_def import_bridges_tasks)
  qed
qed

lemma create_entry_request_inj:
  "(create_entry_request h = create_entry_request h') = (h = h')"
proof
  assume "create_entry_request h = create_entry_request h'"
  then have "flow_data (create_entry_request h) CONF_HOST
      = flow_data (create_entry_request h') CONF_HOST"
    by simp
  then show "h = h'" by (simp add: create_entry_request_def)
qed simp

lemma count_requests:
  "length (filter (\<lambda>t. t = create_entry_request h)
       (map (\<lambda>bridge_conf. create_entry_request (host bridge_conf)) (filter P bridges))) =
     length (filter (\<lambda>bridge_conf. host bridge_conf = h \<and> P bridge_conf) bridges)"
  by (induction bridges) (simp_all add: create_entry_request_inj)

lemma count_distinct_hosts:
  "distinct (map host bridges) \<Longrightarrow>
   length (filter (\<lambda>bridge_conf. host bridge_conf = h) bridges) =
     (if h \<in> set (map host bridges) then 1 else 0)"
  by (induction bridges) auto

text \<open>
  C4, as the code has it. The importer adds, in the order of the records, one
  create-entry request for every legacy bridge record whose host is not a stored host
  of an existing entry, each carrying exactly the host: for every host, as many
  requests as there are records of that host, none when the host is among the
  existing entries. When the hosts of the records are distinct this is exactly one
  request for each host that is not among the existing entries.
\<close>

theorem legacy_import_requests:
  "(let configured = set (map (\<lambda>entry. data entry CONF_HOST) (entries hass));
        new_tasks = drop (length (tasks hass)) (tasks (snd (async_setup hass config)))
    in tasks (snd (async_setup hass config)) = tasks hass @ new_tasks
     \<and> new_tasks =
         map (\<lambda>bridge_conf. create_entry_request (host bridge_conf))
           (filter (\<lambda>bridge_conf. Some (VStr (host bridge_conf)) \<notin> configured)
              (legacy_bridges config))
     \<and> (\<forall>h. length (filter (\<lambda>t. t = create_entry_request h) new_tasks) =
           (if Some (VStr h) \<in> configured then 0
            else length (filter (\<lambda>bridge_conf. host bridge_conf = h) (legacy_bridges config))))
     \<and> (distinct (map host (legacy_bridges config)) \<longrightarrow>
          (\<forall>h. length (filter (\<lambda>t. t = create_entry_request h) new_tasks) =
             (if h \<in> set (map host (legacy_bridges config)) \<and> Some (VStr h) \<notin> configured
              then 1 else 0))))"
proof -
  define configured where "configured = set (map (\<lambda>entry. data entry CONF_HOST) (entries hass))"
  define new_tasks where
    "new_tasks = drop (length (tasks hass)) (tasks (snd (async_setup hass config)))"
  have new: "new_tasks =
      map (\<lambda>bridge_conf. create_entry_request (host bridge_conf))
        (filter (\<lambda>bridge_conf. Some (VStr (host bridge_conf)) \<notin> configured)
           (legacy_bridges config))"
    unfolding new_tasks_def configured_def async_setup_tasks by simp
  have all: "tasks (snd (async_setup hass config)) = tasks hass @ new_tasks"
    unfolding new unfolding configured_def by (rule async_setup_tasks)
  have count: "length (filter (\<lambda>t. t = create_entry_request h) new_tasks) =
      (if Some (VStr h) \<in> configured then 0
       else length (filter (\<lambda>bridge_conf. host bridge_conf = h) (legacy_bridges config)))" for h
  proof (cases "Some (VStr h) \<in> configured")
    case True
    then have "filter (\<lambda>bridge_conf. host bridge_conf = h \<and> Some (VStr (host bridge_conf)) \<notin> configured)
        (legacy_bridges config) = []"
      by (auto simp: filter_empty_conv)
    with True show ?thesis unfolding new count_requests by simp
  next
    case False
    then have "filter (\<lambda>bridge_conf. host bridge_conf = h \<and> Some (VStr (host bridge_conf)) \<notin> configured)
        (legacy_bridges config)
      = filter (\<lambda>bridge_conf. host bridge_conf = h) (legacy_bridges config)"
      by (auto intro: filter_cong)
    with False show ?thesis unfolding new count_requests by simp
  qed
  have one: "length (filter (\<lambda>t. t = create_entry_request h) new_tasks) =
      (if h \<in> set (map host (legacy_bridges config)) \<and> Some (VStr h) \<notin> configured
       then 1 else 0)"
    if "distinct (map host (legacy_bridges config))" for h
    unfolding count count_distinct_hosts [OF that] by simp
  from all new count one show ?thesis
    unfolding Let_def configured_def [symmetric] new_tasks_def [symmetric] by blast
qed

theorem legacy_import_requests_witness:
  "tasks (snd (async_setup (empty_hass\<lparr>entries := [scenario_entry]\<rparr>)
       (Some (Some [legacy_record, second_record]))))
     = [create_entry_request ''10.0.0.6'']"
proof -
  have c: "set (map (\<lambda>entry. data entry CONF_HOST)
        (entries (empty_hass\<lparr>entries := [scenario_entry]\<rparr>)))
      = {Some (VStr ''10.0.0.5'')}"
    by (simp add: scenario_entry_def keys_distinct)
  have b: "legacy_bridges (Some (Some [legacy_record, second_record]))
      = [legacy_record, second_record]"
    by (simp add: legacy_bridges_def)
  have h: "host legacy_record = ''10.0.0.5''" "host second_record = ''10.0.0.6''"
    by (simp_all add: legacy_record_def second_record_def)
  have t: "tasks (empty_hass\<lparr>entries := [scenario_entry]\<rparr>) = []"
    by (simp add: empty_hass_def)
  show ?thesis
    using legacy_import_requests [of "empty_hass\<lparr>entries := [scenario_entry]\<rparr>"
        "Some (Some [legacy_record, second_record])"]
    unfolding Let_def c b by (simp add: h t)
qed

text \<open>
  The claim C4 as it is written fails when two legacy records name the same host: the
  loop of lines 76-95 does not add the host to \<^verbatim>\<open>configured_hosts\<close>, so each of the
  two records gets a request, two for the one distinct host.
\<close>

theorem duplicate_host_two_requests:
  "tasks (snd (async_setup empty_hass (Some (Some [legacy_record, legacy_record]))))
     = [create_entry_request ''10.0.0.5'', create_entry_request ''10.0.0.5'']"
  by (simp add: async_setup_def Let_def empty_hass_def legacy_record_def create_entry_request_def)

end
